theory Spec2Isabelle
  imports Main
begin

section \<open>The background service worker of the proxy extension\<close>

text \<open>
  The background script registers four listeners with the browser (installation, storage
  change, startup, message) and one helper, \<open>updateProxyRules\<close>. Every call into the
  browser is asynchronous: the script issues the call and returns to the event loop, and
  the rest of the handler runs when the browser completes the call. The model keeps the
  issued, not yet completed calls in a pool (\<open>pending\<close>); an event either comes from
  outside (installation, startup, a message of the popup, a write of another page) or
  completes one pending call with the outcome the browser gives it. Every effect of the
  script on the outside is appended to a trace, in the order the script performs it.

  What the browser does is taken as follows: a storage write is applied when it is issued
  and a change event is dispatched only when the stored value differs from the old one;
  storage reads and writes do not fail; a rule-set update that fails leaves the rule set
  as it was; pending calls may complete in any order.
\<close>

subsection \<open>Values exchanged with the browser\<close>

datatype js_error = JsError (message: string)

text \<open>A message of the popup. The popup sends a boolean in \<open>enabled\<close> with
  \<open>toggleProxy\<close>; the other handlers do not read the field.\<close>

record request =
  action :: string
  enabled :: bool

datatype response =
    StatusReply bool          \<comment> \<open>\<open>{ enabled }\<close>\<close>
  | ToggleSuccess bool        \<comment> \<open>\<open>{ success: true, enabled }\<close>\<close>
  | ToggleFailure string      \<comment> \<open>\<open>{ success: false, error }\<close>\<close>
  | ServerReply bool int      \<comment> \<open>\<open>{ online, status }\<close>\<close>
  | ServerError bool string   \<comment> \<open>\<open>{ online: false, error }\<close>\<close>

datatype storage_change = Change (oldValue: "bool option") (newValue: "bool option")

type_synonym changes = "(string \<times> storage_change) list"

text \<open>Who waits for the promise that \<open>updateProxyRules\<close> returns.\<close>

datatype caller = FromListener | FromStartup | FromToggle nat

text \<open>
  A pending browser call together with the continuation of the script that its completion
  runs. The number is the message exchange whose \<open>sendResponse\<close> the continuation holds.
\<close>

datatype task =
    SetCallback nat bool        \<comment> \<open>callback of \<open>storage.sync.set\<close> in the toggle handler\<close>
  | ChangedEvent string changes \<comment> \<open>a dispatch of \<open>storage.onChanged\<close>\<close>
  | StartupGet                  \<comment> \<open>\<open>await storage.sync.get\<close> of the startup listener\<close>
  | StatusGet nat               \<comment> \<open>callback of \<open>storage.sync.get\<close> in the status handler\<close>
  | RulesetUpdate bool caller   \<comment> \<open>\<open>await declarativeNetRequest.updateEnabledRulesets\<close>\<close>
  | Fetch string nat            \<comment> \<open>\<open>fetch(url)\<close> of the server check\<close>

datatype effect =
    ConsoleLog string
  | ConsoleError string js_error
  | StorageSyncSet bool
  | UpdateEnabledRulesets bool  \<comment> \<open>True: \<open>enableRulesetIds\<close>, False: \<open>disableRulesetIds\<close>\<close>
  | SetBadgeText string
  | SetBadgeBackgroundColor string
  | SendResponse nat response
  | UnhandledRejection js_error

datatype outcome = Done | Failed js_error | HttpResponse int

record world =
  proxyEnabled :: "bool option"   \<comment> \<open>the key \<open>proxyEnabled\<close> of \<open>storage.sync\<close>\<close>
  ruleset_on :: bool              \<comment> \<open>whether the rule set \<open>proxy_rules\<close> is enabled\<close>
  badge_text :: string
  badge_color :: "string option"
  pending :: "task list"
  trace :: "effect list"

definition PROXY_SERVER :: string where
  "PROXY_SERVER = ''http://localhost:8080''"

subsection \<open>JavaScript operators the script uses\<close>

text \<open>\<open>v || false\<close> and the truth test of \<open>enabled ? a : b\<close>, on a value that is a
  boolean or undefined.\<close>

fun or_false :: "bool option \<Rightarrow> bool" where
  "or_false None = False"
| "or_false (Some b) = b"

text \<open>\<open>response.ok\<close> of the Fetch standard: the status is in the range 200 to 299.\<close>

definition response_ok :: "int \<Rightarrow> bool" where
  "response_ok st = (200 \<le> st \<and> st \<le> 299)"

text \<open>\<open>changes.proxyEnabled\<close>: the change object of the key, when the key changed.\<close>

definition changes_proxyEnabled :: "changes \<Rightarrow> storage_change option" where
  "changes_proxyEnabled ch = map_of ch ''proxyEnabled''"

subsection \<open>Browser interfaces\<close>

definition console_log :: "string \<Rightarrow> world \<Rightarrow> world" where
  "console_log s w = w\<lparr>trace := trace w @ [ConsoleLog s]\<rparr>"

definition console_error :: "string \<Rightarrow> js_error \<Rightarrow> world \<Rightarrow> world" where
  "console_error s e w = w\<lparr>trace := trace w @ [ConsoleError s e]\<rparr>"

definition setBadgeText :: "string \<Rightarrow> world \<Rightarrow> world" where
  "setBadgeText t w = w\<lparr>badge_text := t, trace := trace w @ [SetBadgeText t]\<rparr>"

definition setBadgeBackgroundColor :: "string \<Rightarrow> world \<Rightarrow> world" where
  "setBadgeBackgroundColor c w =
     w\<lparr>badge_color := Some c, trace := trace w @ [SetBadgeBackgroundColor c]\<rparr>"

definition sendResponse :: "nat \<Rightarrow> response \<Rightarrow> world \<Rightarrow> world" where
  "sendResponse ex r w = w\<lparr>trace := trace w @ [SendResponse ex r]\<rparr>"

definition unhandled_rejection :: "js_error \<Rightarrow> world \<Rightarrow> world" where
  "unhandled_rejection e w = w\<lparr>trace := trace w @ [UnhandledRejection e]\<rparr>"

definition spawn :: "task \<Rightarrow> world \<Rightarrow> world" where
  "spawn t w = w\<lparr>pending := pending w @ [t]\<rparr>"

text \<open>The store itself: the value is replaced, and a change event is dispatched to the
  listeners when the value differs from the stored one.\<close>

definition storage_write :: "bool \<Rightarrow> world \<Rightarrow> world" where
  "storage_write v w =
     (if proxyEnabled w = Some v then w
      else spawn (ChangedEvent ''sync'' [(''proxyEnabled'', Change (proxyEnabled w) (Some v))])
             (w\<lparr>proxyEnabled := Some v\<rparr>))"

text \<open>\<open>chrome.storage.sync.set({ proxyEnabled: v })\<close> called by the script.\<close>

definition storage_sync_set :: "bool \<Rightarrow> world \<Rightarrow> world" where
  "storage_sync_set v w = storage_write v (w\<lparr>trace := trace w @ [StorageSyncSet v]\<rparr>)"

subsection \<open>\<open>updateProxyRules\<close>\<close>

text \<open>
  \<^verbatim>\<open>
  async function updateProxyRules(enabled) {
    console.log(`Updating proxy rules: ${enabled ? 'enabling' : 'disabling'} proxy`);
    try {
      if (enabled) {
        await chrome.declarativeNetRequest.updateEnabledRulesets({
          enableRulesetIds: ['proxy_rules'] });
        chrome.action.setBadgeText({ text: "ON" });
        chrome.action.setBadgeBackgroundColor({ color: "#10B981" });
        console.log('Proxy enabled - redirecting traffic through PQC proxy');
      } else {
        await chrome.declarativeNetRequest.updateEnabledRulesets({
          disableRulesetIds: ['proxy_rules'] });
        chrome.action.setBadgeText({ text: "" });
        console.log('Proxy disabled - using direct connection');
      }
      console.log(`Proxy rules updated successfully: ${enabled ? 'enabled' : 'disabled'}`);
      return true;
    } catch (error) {
      console.error('Error updating proxy rules:', error);
      chrome.action.setBadgeText({ text: "ERR" });
      chrome.action.setBadgeBackgroundColor({ color: "#EF4444" });
      throw error;
    }
  }
  \<close>
  The function is cut at its \<open>await\<close>. Up to there: the log line and the call of the
  rule engine, which stays pending.
\<close>

definition updateProxyRules :: "bool \<Rightarrow> caller \<Rightarrow> world \<Rightarrow> world" where
  "updateProxyRules en c w =
     (let w1 = console_log (''Updating proxy rules: '' @ (if en then ''enabling'' else ''disabling'')
                              @ '' proxy'') w;
          w2 = w1\<lparr>trace := trace w1 @ [UpdateEnabledRulesets en]\<rparr>
      in spawn (RulesetUpdate en c) w2)"

text \<open>After the \<open>await\<close>, when the engine call succeeded: the rest of the \<open>try\<close> block.
  The function then returns \<open>true\<close>.\<close>

definition updateProxyRules_resolved :: "bool \<Rightarrow> world \<Rightarrow> world" where
  "updateProxyRules_resolved en w =
     (let w1 = (if en
                then console_log ''Proxy enabled - redirecting traffic through PQC proxy''
                       (setBadgeBackgroundColor ''#10B981'' (setBadgeText ''ON'' w))
                else console_log ''Proxy disabled - using direct connection''
                       (setBadgeText [] w))
      in console_log (''Proxy rules updated successfully: '' @ (if en then ''enabled'' else ''disabled''))
           w1)"

text \<open>When the engine call failed: the \<open>catch\<close> block. The function then throws the error
  again.\<close>

definition updateProxyRules_rejected :: "js_error \<Rightarrow> world \<Rightarrow> world" where
  "updateProxyRules_rejected e w =
     setBadgeBackgroundColor ''#EF4444''
       (setBadgeText ''ERR'' (console_error ''Error updating proxy rules:'' e w))"

text \<open>What the caller does with the settled promise. The toggle handler awaits it inside
  \<open>try\<close>/\<open>catch\<close>; the storage listener and the startup listener drop it.\<close>

fun caller_resolved :: "caller \<Rightarrow> bool \<Rightarrow> world \<Rightarrow> world" where
  "caller_resolved (FromToggle ex) en w = sendResponse ex (ToggleSuccess en) w"
| "caller_resolved FromListener en w = w"
| "caller_resolved FromStartup en w = w"

fun caller_rejected :: "caller \<Rightarrow> js_error \<Rightarrow> world \<Rightarrow> world" where
  "caller_rejected (FromToggle ex) e w =
     sendResponse ex (ToggleFailure (message e)) (console_error ''Error updating proxy rules:'' e w)"
| "caller_rejected FromListener e w = unhandled_rejection e w"
| "caller_rejected FromStartup e w = unhandled_rejection e w"

subsection \<open>The listeners\<close>

text \<open>
  \<^verbatim>\<open>
  chrome.runtime.onInstalled.addListener(() => {
    console.log('PQC Proxy Extension installed');
    chrome.storage.sync.set({ proxyEnabled: false });
    chrome.action.setBadgeText({ text: "" });
  });
  \<close>
\<close>

definition onInstalled :: "world \<Rightarrow> world" where
  "onInstalled w =
     setBadgeText [] (storage_sync_set False (console_log ''PQC Proxy Extension installed'' w))"

text \<open>
  \<^verbatim>\<open>
  chrome.storage.onChanged.addListener((changes, namespace) => {
    if (namespace === 'sync' && changes.proxyEnabled) {
      const isEnabled = changes.proxyEnabled.newValue;
      updateProxyRules(isEnabled);
    }
  });
  \<close>
  The new value is undefined when the key was removed; \<open>updateProxyRules\<close> only tests it
  for truth.
\<close>

definition onChanged :: "changes \<Rightarrow> string \<Rightarrow> world \<Rightarrow> world" where
  "onChanged ch namespace w =
     (if namespace = ''sync'' \<and> changes_proxyEnabled ch \<noteq> None
      then updateProxyRules (or_false (newValue (the (changes_proxyEnabled ch)))) FromListener w
      else w)"

text \<open>
  \<^verbatim>\<open>
  chrome.runtime.onStartup.addListener(async () => {
    const result = await chrome.storage.sync.get('proxyEnabled');
    updateProxyRules(result.proxyEnabled || false);
  });
  \<close>
  Cut at the \<open>await\<close>; the promise of \<open>updateProxyRules\<close> is not awaited.
\<close>

definition onStartup :: "world \<Rightarrow> world" where
  "onStartup w = spawn StartupGet w"

definition onStartup_got :: "world \<Rightarrow> world" where
  "onStartup_got w = updateProxyRules (or_false (proxyEnabled w)) FromStartup w"

text \<open>
  \<^verbatim>\<open>
  chrome.runtime.onMessage.addListener((request, sender, sendResponse) => {
    if (request.action === 'getProxyStatus') {
      chrome.storage.sync.get('proxyEnabled', (result) => {
        sendResponse({ enabled: result.proxyEnabled || false });
      });
      return true;
    }
    if (request.action === 'toggleProxy') {
      chrome.storage.sync.set({ proxyEnabled: request.enabled }, async () => {
        try {
          await updateProxyRules(request.enabled);
          sendResponse({ success: true, enabled: request.enabled });
        } catch (error) {
          console.error('Error updating proxy rules:', error);
          sendResponse({ success: false, error: error.message });
        }
      });
      return true;
    }
    if (request.action === 'checkServerStatus') {
      fetch(`${PROXY_SERVER}/pqc-info`)
        .then(response => {
          sendResponse({ online: response.ok, status: response.status });
        })
        .catch(error => {
          sendResponse({ online: false, error: error.message });
        });
      return true;
    }
  });
  \<close>
  The synchronous part of the listener. The boolean is its return value: \<open>true\<close> keeps
  the exchange open for a later \<open>sendResponse\<close>; without it the exchange is closed when
  the listener returns. The callbacks are the continuations in \<open>complete\<close> below.
\<close>

definition onMessage :: "request \<Rightarrow> nat \<Rightarrow> world \<Rightarrow> bool \<times> world" where
  "onMessage rq ex w =
     (if action rq = ''getProxyStatus'' then (True, spawn (StatusGet ex) w)
      else if action rq = ''toggleProxy''
        then (True, spawn (SetCallback ex (enabled rq)) (storage_sync_set (enabled rq) w))
      else if action rq = ''checkServerStatus''
        then (True, spawn (Fetch (PROXY_SERVER @ ''/pqc-info'') ex) w)
      else (False, w))"

subsection \<open>The event loop\<close>

text \<open>Completing a pending call runs its continuation. \<open>None\<close>: the call cannot have this
  outcome.\<close>

fun complete :: "task \<Rightarrow> outcome \<Rightarrow> world \<Rightarrow> world option" where
  "complete (SetCallback ex en) Done w = Some (updateProxyRules en (FromToggle ex) w)"
| "complete (ChangedEvent ns ch) Done w = Some (onChanged ch ns w)"
| "complete StartupGet Done w = Some (onStartup_got w)"
| "complete (StatusGet ex) Done w = Some (sendResponse ex (StatusReply (or_false (proxyEnabled w))) w)"
| "complete (RulesetUpdate en c) Done w =
     Some (caller_resolved c en (updateProxyRules_resolved en (w\<lparr>ruleset_on := en\<rparr>)))"
| "complete (RulesetUpdate en c) (Failed e) w =
     Some (caller_rejected c e (updateProxyRules_rejected e w))"
| "complete (Fetch url ex) (HttpResponse st) w =
     Some (sendResponse ex (ServerReply (response_ok st) st) w)"
| "complete (Fetch url ex) (Failed e) w =
     Some (sendResponse ex (ServerError False (message e)) w)"
| "complete _ _ w = None"

datatype event =
    Installed
  | Startup
  | Message nat request
  | OtherWrite bool        \<comment> \<open>another page of the extension writes \<open>proxyEnabled\<close>\<close>
  | Settle nat outcome     \<comment> \<open>the pending call at this position completes\<close>

definition remove_nth :: "nat \<Rightarrow> 'a list \<Rightarrow> 'a list" where
  "remove_nth i xs = take i xs @ drop (Suc i) xs"

definition settle :: "nat \<Rightarrow> outcome \<Rightarrow> world \<Rightarrow> world" where
  "settle i out w =
     (if i < length (pending w)
      then (case complete (pending w ! i) out (w\<lparr>pending := remove_nth i (pending w)\<rparr>) of
              Some w' \<Rightarrow> w'
            | None \<Rightarrow> w)
      else w)"

fun step :: "event \<Rightarrow> world \<Rightarrow> world" where
  "step Installed w = onInstalled w"
| "step Startup w = onStartup w"
| "step (Message ex rq) w = snd (onMessage rq ex w)"
| "step (OtherWrite v) w = storage_write v w"
| "step (Settle i out) w = settle i out w"

fun run :: "event list \<Rightarrow> world \<Rightarrow> world" where
  "run [] w = w"
| "run (e # es) w = run es (step e w)"

text \<open>A process that has just started: nothing stored, nothing pending, no badge.\<close>

definition fresh :: world where
  "fresh = \<lparr>proxyEnabled = None, ruleset_on = False, badge_text = [], badge_color = None,
            pending = [], trace = []\<rparr>"

subsection \<open>Reading a trace and the pool\<close>

text \<open>The responses sent on one exchange, the calls of the rule engine, the badge texts
  written and the promise rejections nobody handled, each in the order of the trace.\<close>

definition responses_on :: "nat \<Rightarrow> effect list \<Rightarrow> response list" where
  "responses_on ex tr = [r. SendResponse x r \<leftarrow> tr, x = ex]"

definition engine_calls :: "effect list \<Rightarrow> bool list" where
  "engine_calls tr = [b. UpdateEnabledRulesets b \<leftarrow> tr]"

definition badge_texts :: "effect list \<Rightarrow> string list" where
  "badge_texts tr = [t. SetBadgeText t \<leftarrow> tr]"

definition unhandled :: "effect list \<Rightarrow> js_error list" where
  "unhandled tr = [e. UnhandledRejection e \<leftarrow> tr]"

text \<open>A pending call owes a response to an exchange when its continuation, or the
  continuation of the call that one issues, calls the \<open>sendResponse\<close> of the exchange.\<close>

fun owes :: "nat \<Rightarrow> task \<Rightarrow> bool" where
  "owes ex (SetCallback x en) = (x = ex)"
| "owes ex (StatusGet x) = (x = ex)"
| "owes ex (RulesetUpdate en (FromToggle x)) = (x = ex)"
| "owes ex (Fetch url x) = (x = ex)"
| "owes ex _ = False"

definition owed :: "nat \<Rightarrow> world \<Rightarrow> nat" where
  "owed ex w = length (filter (owes ex) (pending w))"

text \<open>Pending calls whose continuation calls \<open>updateProxyRules\<close>, and pending calls that
  lead to a write of the badge text.\<close>

fun engine_due :: "task \<Rightarrow> bool" where
  "engine_due (SetCallback x en) = True"
| "engine_due (ChangedEvent ns ch) = (ns = ''sync'' \<and> changes_proxyEnabled ch \<noteq> None)"
| "engine_due StartupGet = True"
| "engine_due _ = False"

definition engine_owed :: "world \<Rightarrow> nat" where
  "engine_owed w = length (filter engine_due (pending w))"

fun badge_due :: "task \<Rightarrow> bool" where
  "badge_due (RulesetUpdate en c) = True"
| "badge_due t = engine_due t"

definition badge_owed :: "world \<Rightarrow> nat" where
  "badge_owed w = length (filter badge_due (pending w))"

text \<open>A toggle transition is in flight from the storage write of the toggle handler until
  the handler has sent its response.\<close>

fun toggling :: "task \<Rightarrow> bool" where
  "toggling (SetCallback x en) = True"
| "toggling (RulesetUpdate en (FromToggle x)) = True"
| "toggling _ = False"

definition in_flight :: "world \<Rightarrow> nat" where
  "in_flight w = length (filter toggling (pending w))"

subsection \<open>Kinds of events\<close>

fun is_settle :: "event \<Rightarrow> bool" where
  "is_settle (Settle i out) = True"
| "is_settle _ = False"

fun succeeds :: "event \<Rightarrow> bool" where
  "succeeds (Settle i (Failed e)) = False"
| "succeeds _ = True"

fun other_exchange :: "nat \<Rightarrow> event \<Rightarrow> bool" where
  "other_exchange ex (Message x rq) = (x \<noteq> ex)"
| "other_exchange ex _ = True"

definition known_action :: "string \<Rightarrow> bool" where
  "known_action a = (a = ''getProxyStatus'' \<or> a = ''toggleProxy'' \<or> a = ''checkServerStatus'')"

text \<open>The badge that \<open>updateProxyRules\<close> leaves after a success.\<close>

definition badge_shows :: "bool \<Rightarrow> world \<Rightarrow> bool" where
  "badge_shows b w =
     (if b then badge_text w = ''ON'' \<and> badge_color w = Some ''#10B981'' else badge_text w = [])"

subsection \<open>Invariants of one toggle request\<close>

text \<open>The calls that can be pending after a toggle request for the value \<open>b\<close> on the
  exchange \<open>ex\<close> was delivered to a process with nothing pending.\<close>

fun flow_task :: "nat \<Rightarrow> bool \<Rightarrow> task \<Rightarrow> bool" where
  "flow_task ex b (SetCallback x en) = (x = ex \<and> en = b)"
| "flow_task ex b (ChangedEvent ns ch) =
     (ns = ''sync'' \<and> map_option newValue (changes_proxyEnabled ch) = Some (Some b))"
| "flow_task ex b (RulesetUpdate en c) = (en = b \<and> (c = FromListener \<or> c = FromToggle ex))"
| "flow_task ex b _ = False"

definition flow_inv :: "nat \<Rightarrow> bool \<Rightarrow> world \<Rightarrow> bool" where
  "flow_inv ex b w = (proxyEnabled w = Some b \<and> list_all (flow_task ex b) (pending w))"

definition badge_inv :: "bool \<Rightarrow> string option \<Rightarrow> world \<Rightarrow> bool" where
  "badge_inv b c0 w =
     ((b \<or> badge_color w = c0) \<and>
      (badge_owed w \<noteq> 0 \<or> (badge_text w = (if b then ''ON'' else []) \<and>
                               (\<not> b \<or> badge_color w = Some ''#10B981''))))"

subsection \<open>Scenarios\<close>

definition toggle_request :: "bool \<Rightarrow> request" where
  "toggle_request b = \<lparr>action = ''toggleProxy'', enabled = b\<rparr>"

text \<open>The field \<open>enabled\<close> is read by the toggle handler only.\<close>

definition status_request :: request where
  "status_request = \<lparr>action = ''getProxyStatus'', enabled = False\<rparr>"

definition denied :: js_error where
  "denied = JsError ''PermissionDenied''"

text \<open>After the first installation: the default is stored, the change event has run the
  rule update, and the engine has confirmed it.\<close>

definition installed :: world where
  "installed = run [Installed, Settle 0 Done, Settle 0 Done] fresh"

text \<open>A toggle to true after the installation, every call succeeding.\<close>

definition happy_toggle :: world where
  "happy_toggle =
     run [Settle 0 Done, Settle 0 Done, Settle 0 Done, Settle 0 Done]
       (step (Message 1 (toggle_request True)) installed)"

text \<open>The same request once more.\<close>

definition repeated_toggle :: world where
  "repeated_toggle =
     run [Settle 0 Done, Settle 0 Done] (step (Message 2 (toggle_request True)) happy_toggle)"

text \<open>A process start with the flag stored as true by an earlier run; the rule engine
  starts disabled and nothing is pending.\<close>

definition restarted :: world where
  "restarted = fresh\<lparr>proxyEnabled := Some True\<rparr>"

text \<open>A toggle to true on which the engine fails, for the listener's update and for the
  handler's.\<close>

definition failed_toggle :: world where
  "failed_toggle =
     run [Message 1 (toggle_request True), Settle 0 Done, Settle 0 Done,
          Settle 0 (Failed denied), Settle 0 (Failed denied)] installed"

text \<open>The same request again, now with the engine succeeding.\<close>

definition retried_toggle :: world where
  "retried_toggle = run [Message 2 (toggle_request True), Settle 0 Done, Settle 0 Done] failed_toggle"

text \<open>Two toggle requests, the second delivered before anything of the first has
  completed; then all pending calls complete, oldest first.\<close>

definition first_toggle :: world where
  "first_toggle = step (Message 1 (toggle_request True)) installed"

definition second_toggle :: world where
  "second_toggle = step (Message 2 (toggle_request False)) first_toggle"

definition both_toggles_done :: world where
  "both_toggles_done =
     run [Settle 0 Done, Settle 0 Done, Settle 0 Done, Settle 0 Done,
          Settle 0 Done, Settle 0 Done, Settle 0 Done, Settle 0 Done] second_toggle"

text \<open>The startup event and then a status request; the request's storage read is pending
  beside the startup listener's.\<close>

definition status_asked :: world where
  "status_asked = run [Startup, Message 1 status_request] restarted"

text \<open>The status request is answered while the storage read of the startup listener is
  still pending.\<close>

definition early_status :: world where
  "early_status = run [Startup, Message 1 status_request, Settle 1 Done] restarted"

text \<open>A status request to a process that was started by the message itself, with no
  startup event.\<close>

definition unprompted_status :: world where
  "unprompted_status = run [Message 1 status_request, Settle 0 Done] restarted"

text \<open>Startup with the flag stored as true and an engine that rejects the update.\<close>

definition startup_failure :: world where
  "startup_failure = run [Startup, Settle 0 Done, Settle 0 (Failed denied)] restarted"

text \<open>A server check.\<close>

definition check_request :: request where
  "check_request = \<lparr>action = ''checkServerStatus'', enabled = False\<rparr>"

text \<open>A message with an action the listener does not know.\<close>

definition ping_request :: request where
  "ping_request = \<lparr>action = ''ping'', enabled = False\<rparr>"

section \<open>Properties\<close>

subsection \<open>Reading traces\<close>

lemmas ops = console_log_def console_error_def setBadgeText_def setBadgeBackgroundColor_def
  sendResponse_def unhandled_rejection_def spawn_def storage_write_def storage_sync_set_def
  updateProxyRules_def updateProxyRules_resolved_def updateProxyRules_rejected_def
  onInstalled_def onChanged_def onStartup_def onStartup_got_def onMessage_def

lemma responses_on_append [simp]: "responses_on ex (a @ b) = responses_on ex a @ responses_on ex b"
  by (simp add: responses_on_def)

lemma responses_on_simps [simp]:
  "responses_on ex [] = []"
  "responses_on ex (SendResponse x r # tr) = (if x = ex then r # responses_on ex tr else responses_on ex tr)"
  "responses_on ex (ConsoleLog s # tr) = responses_on ex tr"
  "responses_on ex (ConsoleError s e # tr) = responses_on ex tr"
  "responses_on ex (StorageSyncSet b # tr) = responses_on ex tr"
  "responses_on ex (UpdateEnabledRulesets b # tr) = responses_on ex tr"
  "responses_on ex (SetBadgeText t # tr) = responses_on ex tr"
  "responses_on ex (SetBadgeBackgroundColor c # tr) = responses_on ex tr"
  "responses_on ex (UnhandledRejection e # tr) = responses_on ex tr"
  by (simp_all add: responses_on_def)

lemma engine_calls_append [simp]: "engine_calls (a @ b) = engine_calls a @ engine_calls b"
  by (simp add: engine_calls_def)

lemma engine_calls_simps [simp]:
  "engine_calls [] = []"
  "engine_calls (UpdateEnabledRulesets b # tr) = b # engine_calls tr"
  "engine_calls (SendResponse x r # tr) = engine_calls tr"
  "engine_calls (ConsoleLog s # tr) = engine_calls tr"
  "engine_calls (ConsoleError s e # tr) = engine_calls tr"
  "engine_calls (StorageSyncSet b # tr) = engine_calls tr"
  "engine_calls (SetBadgeText t # tr) = engine_calls tr"
  "engine_calls (SetBadgeBackgroundColor c # tr) = engine_calls tr"
  "engine_calls (UnhandledRejection e # tr) = engine_calls tr"
  by (simp_all add: engine_calls_def)

lemma badge_texts_append [simp]: "badge_texts (a @ b) = badge_texts a @ badge_texts b"
  by (simp add: badge_texts_def)

lemma badge_texts_simps [simp]:
  "badge_texts [] = []"
  "badge_texts (SetBadgeText t # tr) = t # badge_texts tr"
  "badge_texts (UpdateEnabledRulesets b # tr) = badge_texts tr"
  "badge_texts (SendResponse x r # tr) = badge_texts tr"
  "badge_texts (ConsoleLog s # tr) = badge_texts tr"
  "badge_texts (ConsoleError s e # tr) = badge_texts tr"
  "badge_texts (StorageSyncSet b # tr) = badge_texts tr"
  "badge_texts (SetBadgeBackgroundColor c # tr) = badge_texts tr"
  "badge_texts (UnhandledRejection e # tr) = badge_texts tr"
  by (simp_all add: badge_texts_def)

lemma filter_remove_nth:
  assumes "i < length xs"
  shows "length (filter P (remove_nth i xs)) + (if P (xs ! i) then 1 else 0) = length (filter P xs)"
proof -
  from assms have "xs = take i xs @ xs ! i # drop (Suc i) xs" by (rule id_take_nth_drop)
  then have "filter P xs = filter P (take i xs) @ filter P [xs ! i] @ filter P (drop (Suc i) xs)"
    by (metis append_Cons append_Nil filter_append)
  then show ?thesis by (simp add: remove_nth_def)
qed

lemma set_remove_nth: "set (remove_nth i xs) \<subseteq> set xs"
  unfolding remove_nth_def using set_take_subset [of i xs] set_drop_subset [of "Suc i" xs] by auto

subsection \<open>What completing a call leaves alone\<close>

lemma settle_proxyEnabled: "proxyEnabled (settle i out w) = proxyEnabled w"
proof (cases "i < length (pending w)")
  case False
  then show ?thesis by (simp add: settle_def)
next
  case True
  show ?thesis
  proof (cases "pending w ! i")
    case (RulesetUpdate en c)
    with True show ?thesis by (cases out; cases c) (auto simp: settle_def ops)
  qed (use True in \<open>cases out; auto simp: settle_def ops split: option.splits\<close>)+
qed

lemma run_settles_proxyEnabled:
  "list_all is_settle es \<Longrightarrow> proxyEnabled (run es w) = proxyEnabled w"
proof (induction es arbitrary: w)
  case Nil
  show ?case by simp
next
  case (Cons e es)
  then obtain i out where "e = Settle i out" by (cases e) auto
  with Cons show ?case by (simp add: settle_proxyEnabled)
qed

subsection \<open>Conservation of responses, engine calls and badge writes\<close>

lemma settle_responses:
  "length (responses_on ex (trace (settle i out w))) + owed ex (settle i out w)
     = length (responses_on ex (trace w)) + owed ex w"
proof (cases "i < length (pending w)")
  case False
  then show ?thesis by (simp add: settle_def)
next
  case True
  note fr = filter_remove_nth [OF True, of "owes ex"]
  show ?thesis
  proof (cases "pending w ! i")
    case (RulesetUpdate en c)
    with True fr show ?thesis by (cases out; cases c) (auto simp: settle_def owed_def ops)
  qed (use True fr in \<open>cases out; auto simp: settle_def owed_def ops split: option.splits\<close>)+
qed

lemma step_responses:
  assumes "other_exchange ex e"
  shows "length (responses_on ex (trace (step e w))) + owed ex (step e w)
           = length (responses_on ex (trace w)) + owed ex w"
proof (cases e)
  case (Settle i out)
  then show ?thesis by (simp add: settle_responses)
next
  case (Message x rq)
  with assms show ?thesis by (auto simp: owed_def ops)
qed (auto simp: owed_def ops)

lemma run_responses:
  "list_all (other_exchange ex) es \<Longrightarrow>
   length (responses_on ex (trace (run es w))) + owed ex (run es w)
     = length (responses_on ex (trace w)) + owed ex w"
  by (induction es arbitrary: w) (simp_all add: step_responses)

lemma settle_engine_calls:
  "length (engine_calls (trace (settle i out w))) + engine_owed (settle i out w)
     = length (engine_calls (trace w)) + engine_owed w"
proof (cases "i < length (pending w)")
  case False
  then show ?thesis by (simp add: settle_def)
next
  case True
  note fr = filter_remove_nth [OF True, of engine_due]
  show ?thesis
  proof (cases "pending w ! i")
    case (RulesetUpdate en c)
    with True fr show ?thesis by (cases out; cases c) (auto simp: settle_def engine_owed_def ops)
  qed (use True fr in \<open>cases out; auto simp: settle_def engine_owed_def ops split: option.splits\<close>)+
qed

lemma settle_badge_texts:
  "length (badge_texts (trace (settle i out w))) + badge_owed (settle i out w)
     = length (badge_texts (trace w)) + badge_owed w"
proof (cases "i < length (pending w)")
  case False
  then show ?thesis by (simp add: settle_def)
next
  case True
  note fr = filter_remove_nth [OF True, of badge_due]
  show ?thesis
  proof (cases "pending w ! i")
    case (RulesetUpdate en c)
    with True fr show ?thesis by (cases out; cases c) (auto simp: settle_def badge_owed_def ops)
  qed (use True fr in \<open>cases out; auto simp: settle_def badge_owed_def ops split: option.splits\<close>)+
qed

lemma run_engine_calls:
  "list_all is_settle es \<Longrightarrow>
   length (engine_calls (trace (run es w))) + engine_owed (run es w)
     = length (engine_calls (trace w)) + engine_owed w"
proof (induction es arbitrary: w)
  case Nil
  show ?case by simp
next
  case (Cons e es)
  then obtain i out where "e = Settle i out" by (cases e) auto
  with Cons show ?case by (simp add: settle_engine_calls)
qed

lemma run_badge_texts:
  "list_all is_settle es \<Longrightarrow>
   length (badge_texts (trace (run es w))) + badge_owed (run es w)
     = length (badge_texts (trace w)) + badge_owed w"
proof (induction es arbitrary: w)
  case Nil
  show ?case by simp
next
  case (Cons e es)
  then obtain i out where "e = Settle i out" by (cases e) auto
  with Cons show ?case by (simp add: settle_badge_texts)
qed


subsection \<open>One toggle request, delivered when nothing is pending\<close>

lemma flow_inv_start:
  assumes "pending w = []" and "action rq = ''toggleProxy''"
  shows "flow_inv ex (enabled rq) (step (Message ex rq) w)"
  using assms by (auto simp: flow_inv_def changes_proxyEnabled_def ops)

lemma flow_inv_settle:
  assumes "flow_inv ex b w"
  shows "flow_inv ex b (settle i out w)"
proof (cases "i < length (pending w)")
  case False
  with assms show ?thesis by (simp add: settle_def)
next
  case True
  from assms have rest: "\<forall>t \<in> set (remove_nth i (pending w)). flow_task ex b t"
    using set_remove_nth [of i "pending w"] by (auto simp: flow_inv_def list_all_iff)
  from assms True have here: "flow_task ex b (pending w ! i)"
    by (simp add: flow_inv_def list_all_iff)
  from assms have st: "proxyEnabled w = Some b" and all: "\<forall>t \<in> set (pending w). flow_task ex b t"
    by (simp_all add: flow_inv_def list_all_iff)
  show ?thesis
  proof (cases "pending w ! i")
    case (RulesetUpdate en c)
    with True rest here st all show ?thesis
      by (cases out; cases c) (auto simp: settle_def flow_inv_def list_all_iff ops)
  qed (use True rest here st all in
        \<open>cases out; auto simp: settle_def flow_inv_def list_all_iff ops\<close>)+
qed

lemma flow_inv_run:
  "list_all is_settle es \<Longrightarrow> flow_inv ex b w \<Longrightarrow> flow_inv ex b (run es w)"
proof (induction es arbitrary: w)
  case Nil
  then show ?case by simp
next
  case (Cons e es)
  then obtain i out where "e = Settle i out" by (cases e) auto
  with Cons show ?case by (simp add: flow_inv_settle)
qed

lemma flow_success_settle:
  assumes "flow_inv ex b w"
    and "ToggleSuccess b \<in> set (responses_on ex (trace w)) \<longrightarrow> ruleset_on w = b"
  shows "ToggleSuccess b \<in> set (responses_on ex (trace (settle i out w)))
           \<longrightarrow> ruleset_on (settle i out w) = b"
proof (cases "i < length (pending w)")
  case False
  with assms show ?thesis by (simp add: settle_def)
next
  case True
  from assms True have here: "flow_task ex b (pending w ! i)"
    by (simp add: flow_inv_def list_all_iff)
  show ?thesis
  proof (cases "pending w ! i")
    case (RulesetUpdate en c)
    with True here assms(2) show ?thesis
      by (cases out; cases c) (auto simp: settle_def ops)
  qed (use True here assms(2) in
        \<open>cases out; auto simp: settle_def ops\<close>)+
qed

lemma flow_success_run:
  "list_all is_settle es \<Longrightarrow> flow_inv ex b w \<Longrightarrow>
   ToggleSuccess b \<in> set (responses_on ex (trace w)) \<longrightarrow> ruleset_on w = b \<Longrightarrow>
   ToggleSuccess b \<in> set (responses_on ex (trace (run es w))) \<longrightarrow> ruleset_on (run es w) = b"
proof (induction es arbitrary: w)
  case Nil
  then show ?case by simp
next
  case (Cons e es)
  then obtain i out where e: "e = Settle i out" by (cases e) auto
  have "flow_inv ex b (settle i out w)"
    using Cons.prems(2) by (rule flow_inv_settle)
  moreover have "ToggleSuccess b \<in> set (responses_on ex (trace (settle i out w)))
                   \<longrightarrow> ruleset_on (settle i out w) = b"
    using Cons.prems(2,3) by (rule flow_success_settle)
  ultimately show ?case using Cons.IH [of "settle i out w"] Cons.prems(1) e by simp
qed

lemma flow_replies_settle:
  assumes "flow_inv ex b w" and "succeeds (Settle i out)"
    and "set (responses_on ex (trace w)) \<subseteq> {ToggleSuccess b}"
  shows "set (responses_on ex (trace (settle i out w))) \<subseteq> {ToggleSuccess b}"
proof (cases "i < length (pending w)")
  case False
  with assms show ?thesis by (simp add: settle_def)
next
  case True
  from assms True have here: "flow_task ex b (pending w ! i)"
    by (simp add: flow_inv_def list_all_iff)
  show ?thesis
  proof (cases "pending w ! i")
    case (RulesetUpdate en c)
    with True here assms(2,3) show ?thesis
      by (cases out; cases c) (auto simp: settle_def ops)
  qed (use True here assms(2,3) in
        \<open>cases out; auto simp: settle_def ops\<close>)+
qed

lemma flow_badge_settle:
  assumes "flow_inv ex b w" and "succeeds (Settle i out)" and "badge_inv b c0 w"
  shows "badge_inv b c0 (settle i out w)"
proof (cases "i < length (pending w)")
  case False
  with assms show ?thesis by (simp add: settle_def)
next
  case True
  note fr = filter_remove_nth [OF True, of badge_due]
  from assms True have here: "flow_task ex b (pending w ! i)"
    by (simp add: flow_inv_def list_all_iff)
  show ?thesis
  proof (cases "pending w ! i")
    case (RulesetUpdate en c)
    with True here fr assms(2,3) show ?thesis
      by (cases out; cases c) (auto simp: settle_def badge_inv_def badge_owed_def ops)
  qed (use True here fr assms(2,3) in
        \<open>cases out; auto simp: settle_def badge_inv_def badge_owed_def ops\<close>)+
qed

lemma flow_quiet_run:
  "list_all is_settle es \<Longrightarrow> list_all succeeds es \<Longrightarrow> flow_inv ex b w \<Longrightarrow>
   set (responses_on ex (trace w)) \<subseteq> {ToggleSuccess b} \<Longrightarrow> badge_inv b c0 w \<Longrightarrow>
   set (responses_on ex (trace (run es w))) \<subseteq> {ToggleSuccess b} \<and> badge_inv b c0 (run es w)"
proof (induction es arbitrary: w)
  case Nil
  then show ?case by simp
next
  case (Cons e es)
  then obtain i out where e: "e = Settle i out" by (cases e) auto
  with Cons.prems have ok: "succeeds (Settle i out)" by simp
  have "flow_inv ex b (settle i out w)"
    using Cons.prems(3) by (rule flow_inv_settle)
  moreover have "set (responses_on ex (trace (settle i out w))) \<subseteq> {ToggleSuccess b}"
    using Cons.prems(3) ok Cons.prems(4) by (rule flow_replies_settle)
  moreover have "badge_inv b c0 (settle i out w)"
    using Cons.prems(3) ok Cons.prems(5) by (rule flow_badge_settle)
  ultimately show ?case using Cons.IH [of "settle i out w"] Cons.prems(1,2) e by simp
qed

lemma settle_other_exchange: "list_all is_settle es \<Longrightarrow> list_all (other_exchange ex) es"
proof (induction es)
  case Nil
  show ?case by simp
next
  case (Cons e es)
  then show ?case by (cases e) simp_all
qed

lemma the_only_element:
  assumes "length xs = 1" and "set xs \<subseteq> {a}"
  shows "xs = [a]"
proof -
  from assms(1) obtain x where "xs = [x]"
    by (cases xs) auto
  with assms(2) show ?thesis by simp
qed

subsection \<open>The engine calls of one toggle request\<close>

lemma flow_calls_settle:
  assumes "flow_inv ex b w" and "\<exists>k. engine_calls (trace w) = c0 @ replicate k b"
  shows "\<exists>k. engine_calls (trace (settle i out w)) = c0 @ replicate k b"
proof (cases "i < length (pending w)")
  case False
  with assms show ?thesis by (simp add: settle_def)
next
  case True
  from assms(2) obtain k where k: "engine_calls (trace w) = c0 @ replicate k b" ..
  then have more: "engine_calls (trace w) @ [b] = c0 @ replicate (Suc k) b"
    by (simp add: replicate_append_same)
  from assms True have here: "flow_task ex b (pending w ! i)"
    by (simp add: flow_inv_def list_all_iff)
  show ?thesis
  proof (cases "pending w ! i")
    case (SetCallback x en)
    with True here k more show ?thesis
      by (cases out) (auto simp: settle_def ops simp del: replicate_Suc)
  next
    case (ChangedEvent ns ch)
    with True here k more show ?thesis
      by (cases out) (auto simp: settle_def ops simp del: replicate_Suc)
  next
    case (RulesetUpdate en c)
    with True here k show ?thesis
      by (cases out; cases c) (auto simp: settle_def ops)
  qed (use True here in simp_all)
qed

lemma flow_calls_run:
  "list_all is_settle es \<Longrightarrow> flow_inv ex b w \<Longrightarrow>
   \<exists>k. engine_calls (trace w) = c0 @ replicate k b \<Longrightarrow>
   \<exists>k. engine_calls (trace (run es w)) = c0 @ replicate k b"
proof (induction es arbitrary: w)
  case Nil
  then show ?case by simp
next
  case (Cons e es)
  then obtain i out where e: "e = Settle i out" by (cases e) auto
  have "flow_inv ex b (settle i out w)"
    using Cons.prems(2) by (rule flow_inv_settle)
  moreover have "\<exists>k. engine_calls (trace (settle i out w)) = c0 @ replicate k b"
    using Cons.prems(2,3) by (rule flow_calls_settle)
  ultimately show ?case using Cons.IH [of "settle i out w"] Cons.prems(1) e by simp
qed

subsection \<open>A toggle request completed without a failure\<close>

lemma quiet_toggle_completes:
  assumes quiet: "pending w = []" and new: "responses_on ex (trace w) = []"
    and rq: "action rq = ''toggleProxy''"
    and es: "list_all is_settle es" and ok: "list_all succeeds es"
    and w': "w' = run es (step (Message ex rq) w)" and fin: "pending w' = []"
  shows "responses_on ex (trace w') = [ToggleSuccess (enabled rq)]"
    and "badge_text w' = (if enabled rq then ''ON'' else [])"
    and "enabled rq \<or> badge_color w' = badge_color w"
    and "\<not> enabled rq \<or> badge_color w' = Some ''#10B981''"
    and "proxyEnabled w' = Some (enabled rq)"
    and "ruleset_on w' = enabled rq"
proof -
  let ?b = "enabled rq" and ?w1 = "step (Message ex rq) w"
  have inv1: "flow_inv ex ?b ?w1"
    using quiet rq by (rule flow_inv_start)
  have none1: "responses_on ex (trace ?w1) = []"
    using new rq by (simp add: ops)
  have owed1: "owed ex ?w1 = 1"
    using quiet rq by (simp add: owed_def ops)
  have badge1: "badge_inv ?b (badge_color w) ?w1"
    using quiet rq by (simp add: badge_inv_def badge_owed_def ops)
  from flow_quiet_run [OF es ok inv1 _ badge1] none1 w'
  have replies: "set (responses_on ex (trace w')) \<subseteq> {ToggleSuccess ?b}"
    and badge: "badge_inv ?b (badge_color w) w'"
    by simp_all
  from run_responses [OF settle_other_exchange [OF es], of ex ?w1] none1 owed1 w' fin
  have "length (responses_on ex (trace w')) = 1"
    by (simp add: owed_def)
  from this replies show r: "responses_on ex (trace w') = [ToggleSuccess ?b]"
    by (rule the_only_element)
  from badge fin show "badge_text w' = (if ?b then ''ON'' else [])"
    and "?b \<or> badge_color w' = badge_color w"
    and "\<not> ?b \<or> badge_color w' = Some ''#10B981''"
    by (auto simp: badge_inv_def badge_owed_def)
  from flow_inv_run [OF es inv1] w' show "proxyEnabled w' = Some ?b"
    by (simp add: flow_inv_def)
  from flow_success_run [OF es inv1] none1 w' r show "ruleset_on w' = ?b"
    by simp
qed

subsection \<open>The scenarios, evaluated\<close>

lemmas scenario = toggle_request_def status_request_def denied_def ping_request_def fresh_def settle_def
  remove_nth_def

lemmas evals = scenario changes_proxyEnabled_def ops

lemma installed_eq:
  "installed = \<lparr>proxyEnabled = Some False, ruleset_on = False, badge_text = [], badge_color = None,
     pending = [],
     trace = [ConsoleLog ''PQC Proxy Extension installed'', StorageSyncSet False, SetBadgeText [],
              ConsoleLog ''Updating proxy rules: disabling proxy'', UpdateEnabledRulesets False,
              SetBadgeText [], ConsoleLog ''Proxy disabled - using direct connection'',
              ConsoleLog ''Proxy rules updated successfully: disabled'']\<rparr>"
  by (simp add: installed_def scenario changes_proxyEnabled_def ops)

lemma happy_toggle_eq:
  "happy_toggle = \<lparr>proxyEnabled = Some True, ruleset_on = True, badge_text = ''ON'',
     badge_color = Some ''#10B981'', pending = [],
     trace = trace installed @
       [StorageSyncSet True,
        ConsoleLog ''Updating proxy rules: enabling proxy'', UpdateEnabledRulesets True,
        ConsoleLog ''Updating proxy rules: enabling proxy'', UpdateEnabledRulesets True,
        SetBadgeText ''ON'', SetBadgeBackgroundColor ''#10B981'',
        ConsoleLog ''Proxy enabled - redirecting traffic through PQC proxy'',
        ConsoleLog ''Proxy rules updated successfully: enabled'',
        SetBadgeText ''ON'', SetBadgeBackgroundColor ''#10B981'',
        ConsoleLog ''Proxy enabled - redirecting traffic through PQC proxy'',
        ConsoleLog ''Proxy rules updated successfully: enabled'',
        SendResponse 1 (ToggleSuccess True)]\<rparr>"
  by (simp add: happy_toggle_def installed_eq evals)

lemma repeated_toggle_eq:
  "repeated_toggle = happy_toggle\<lparr>
     trace := trace happy_toggle @
       [StorageSyncSet True,
        ConsoleLog ''Updating proxy rules: enabling proxy'', UpdateEnabledRulesets True,
        SetBadgeText ''ON'', SetBadgeBackgroundColor ''#10B981'',
        ConsoleLog ''Proxy enabled - redirecting traffic through PQC proxy'',
        ConsoleLog ''Proxy rules updated successfully: enabled'',
        SendResponse 2 (ToggleSuccess True)]\<rparr>"
  by (simp add: repeated_toggle_def happy_toggle_eq installed_eq evals)

lemma failed_toggle_eq:
  "failed_toggle = \<lparr>proxyEnabled = Some True, ruleset_on = False, badge_text = ''ERR'',
     badge_color = Some ''#EF4444'', pending = [],
     trace = trace installed @
       [StorageSyncSet True,
        ConsoleLog ''Updating proxy rules: enabling proxy'', UpdateEnabledRulesets True,
        ConsoleLog ''Updating proxy rules: enabling proxy'', UpdateEnabledRulesets True,
        ConsoleError ''Error updating proxy rules:'' (JsError ''PermissionDenied''),
        SetBadgeText ''ERR'', SetBadgeBackgroundColor ''#EF4444'',
        UnhandledRejection (JsError ''PermissionDenied''),
        ConsoleError ''Error updating proxy rules:'' (JsError ''PermissionDenied''),
        SetBadgeText ''ERR'', SetBadgeBackgroundColor ''#EF4444'',
        ConsoleError ''Error updating proxy rules:'' (JsError ''PermissionDenied''),
        SendResponse 1 (ToggleFailure ''PermissionDenied'')]\<rparr>"
  by (simp add: failed_toggle_def installed_eq evals)

lemma retried_toggle_eq:
  "retried_toggle = failed_toggle\<lparr>ruleset_on := True, badge_text := ''ON'',
     badge_color := Some ''#10B981'',
     trace := trace failed_toggle @
       [StorageSyncSet True,
        ConsoleLog ''Updating proxy rules: enabling proxy'', UpdateEnabledRulesets True,
        SetBadgeText ''ON'', SetBadgeBackgroundColor ''#10B981'',
        ConsoleLog ''Proxy enabled - redirecting traffic through PQC proxy'',
        ConsoleLog ''Proxy rules updated successfully: enabled'',
        SendResponse 2 (ToggleSuccess True)]\<rparr>"
  by (simp add: retried_toggle_def failed_toggle_eq installed_eq evals)

lemma first_toggle_eq:
  "first_toggle = installed\<lparr>proxyEnabled := Some True,
     pending := [ChangedEvent ''sync'' [(''proxyEnabled'', Change (Some False) (Some True))],
                 SetCallback 1 True],
     trace := trace installed @ [StorageSyncSet True]\<rparr>"
  by (simp add: first_toggle_def installed_eq evals)

lemma second_toggle_eq:
  "second_toggle = installed\<lparr>proxyEnabled := Some False,
     pending := [ChangedEvent ''sync'' [(''proxyEnabled'', Change (Some False) (Some True))],
                 SetCallback 1 True,
                 ChangedEvent ''sync'' [(''proxyEnabled'', Change (Some True) (Some False))],
                 SetCallback 2 False],
     trace := trace installed @ [StorageSyncSet True, StorageSyncSet False]\<rparr>"
  by (simp add: second_toggle_def first_toggle_eq installed_eq evals)

lemma both_toggles_done_facts:
  "pending both_toggles_done = []"
  "proxyEnabled both_toggles_done = Some False"
  "responses_on 1 (trace both_toggles_done) = [ToggleSuccess True]"
  "responses_on 2 (trace both_toggles_done) = [ToggleSuccess False]"
  "engine_calls (trace both_toggles_done) = [False, True, True, False, False]"
  by (simp_all add: both_toggles_done_def second_toggle_eq installed_eq evals)

lemma status_asked_eq:
  "status_asked = restarted\<lparr>pending := [StartupGet, StatusGet 1]\<rparr>"
  by (simp add: status_asked_def restarted_def evals)

lemma early_status_eq:
  "early_status = restarted\<lparr>pending := [StartupGet], trace := [SendResponse 1 (StatusReply True)]\<rparr>"
  by (simp add: early_status_def restarted_def evals)

lemma unprompted_status_eq:
  "unprompted_status = restarted\<lparr>trace := [SendResponse 1 (StatusReply True)]\<rparr>"
  by (simp add: unprompted_status_def restarted_def evals)

lemma startup_failure_eq:
  "startup_failure = restarted\<lparr>badge_text := ''ERR'', badge_color := Some ''#EF4444'',
     trace := [ConsoleLog ''Updating proxy rules: enabling proxy'', UpdateEnabledRulesets True,
               ConsoleError ''Error updating proxy rules:'' (JsError ''PermissionDenied''),
               SetBadgeText ''ERR'', SetBadgeBackgroundColor ''#EF4444'',
               UnhandledRejection (JsError ''PermissionDenied'')]\<rparr>"
  by (simp add: startup_failure_def restarted_def evals)

subsection \<open>Single steps\<close>

lemma settle_rejected_toggle:
  assumes "i < length (pending w)" and "pending w ! i = RulesetUpdate en (FromToggle ex)"
  shows "settle i (Failed e) w =
           w\<lparr>pending := remove_nth i (pending w), badge_text := ''ERR'',
              badge_color := Some ''#EF4444'',
              trace := trace w @ [ConsoleError ''Error updating proxy rules:'' e, SetBadgeText ''ERR'',
                                  SetBadgeBackgroundColor ''#EF4444'',
                                  ConsoleError ''Error updating proxy rules:'' e,
                                  SendResponse ex (ToggleFailure (message e))]\<rparr>"
  using assms by (simp add: settle_def ops)

section \<open>The claims\<close>

text \<open>
  C1. A toggle request is delivered to any state of the process, and pending calls
  complete in any order. When the engine call of this request's handler then fails with an
  error, the handler logs the error and sends \<open>{ success: false, error: message }\<close> on its
  exchange, the badge reads \<open>ERR\<close> on red, and the stored flag still holds the requested
  value, which was written before the engine was called: it is not rolled back. The rule
  set is as it was.
\<close>

theorem toggle_engine_failure:
  assumes "action rq = ''toggleProxy''"
    and "list_all is_settle es"
    and "w2 = run es (step (Message ex rq) w)"
    and "i < length (pending w2)"
    and "pending w2 ! i = RulesetUpdate (enabled rq) (FromToggle ex)"
    and "w3 = step (Settle i (Failed e)) w2"
  shows "trace w3 = trace w2 @ [ConsoleError ''Error updating proxy rules:'' e, SetBadgeText ''ERR'',
                                SetBadgeBackgroundColor ''#EF4444'',
                                ConsoleError ''Error updating proxy rules:'' e,
                                SendResponse ex (ToggleFailure (message e))]
       \<and> badge_text w3 = ''ERR'' \<and> badge_color w3 = Some ''#EF4444''
       \<and> proxyEnabled w3 = Some (enabled rq) \<and> ruleset_on w3 = ruleset_on w2"
proof -
  have "proxyEnabled (step (Message ex rq) w) = Some (enabled rq)"
    using assms(1) by (simp add: ops)
  with assms(2,3) have kept: "proxyEnabled w2 = Some (enabled rq)"
    by (simp add: run_settles_proxyEnabled)
  have "w3 = settle i (Failed e) w2"
    using assms(6) by simp
  with settle_rejected_toggle [OF assms(4,5), of e] kept show ?thesis
    by simp
qed

text \<open>
  C1, at a concrete input: after the installation a toggle to true is delivered on exchange
  7, the change event and the storage callback complete, and the handler's engine call (the
  second pending call) fails with \<open>PermissionDenied\<close>.
\<close>

theorem toggle_engine_failure_witness:
  "action (toggle_request True) = ''toggleProxy''
   \<and> list_all is_settle [Settle 0 Done, Settle 0 Done]
   \<and> 1 < length (pending (run [Settle 0 Done, Settle 0 Done] (step (Message 7 (toggle_request True)) installed)))
   \<and> pending (run [Settle 0 Done, Settle 0 Done] (step (Message 7 (toggle_request True)) installed)) ! 1
        = RulesetUpdate (enabled (toggle_request True)) (FromToggle 7)
   \<and> responses_on 7 (trace (step (Settle 1 (Failed denied))
        (run [Settle 0 Done, Settle 0 Done] (step (Message 7 (toggle_request True)) installed))))
        = [ToggleFailure ''PermissionDenied'']
   \<and> badge_text (step (Settle 1 (Failed denied))
        (run [Settle 0 Done, Settle 0 Done] (step (Message 7 (toggle_request True)) installed))) = ''ERR''
   \<and> badge_color (step (Settle 1 (Failed denied))
        (run [Settle 0 Done, Settle 0 Done] (step (Message 7 (toggle_request True)) installed))) = Some ''#EF4444''
   \<and> proxyEnabled (step (Settle 1 (Failed denied))
        (run [Settle 0 Done, Settle 0 Done] (step (Message 7 (toggle_request True)) installed))) = Some True"
proof -
  have run_eq: "run [Settle 0 Done, Settle 0 Done] (step (Message 7 (toggle_request True)) installed)
      = installed\<lparr>proxyEnabled := Some True,
           pending := [RulesetUpdate True FromListener, RulesetUpdate True (FromToggle 7)],
           trace := trace installed @ [StorageSyncSet True,
              ConsoleLog ''Updating proxy rules: enabling proxy'', UpdateEnabledRulesets True,
              ConsoleLog ''Updating proxy rules: enabling proxy'', UpdateEnabledRulesets True]\<rparr>"
    by (simp add: installed_eq scenario changes_proxyEnabled_def ops)
  have h1: "action (toggle_request True) = ''toggleProxy''" by (simp add: toggle_request_def)
  have h2: "list_all is_settle [Settle 0 Done, Settle 0 Done]" by simp
  have h4: "1 < length (pending (run [Settle 0 Done, Settle 0 Done] (step (Message 7 (toggle_request True)) installed)))"
    unfolding run_eq by simp
  have h5: "pending (run [Settle 0 Done, Settle 0 Done] (step (Message 7 (toggle_request True)) installed)) ! 1
        = RulesetUpdate (enabled (toggle_request True)) (FromToggle 7)"
    unfolding run_eq by (simp add: toggle_request_def)
  from toggle_engine_failure [OF h1 h2 refl h4 h5 refl, of denied] h1 h2 h4 h5
  show ?thesis unfolding run_eq by (simp add: denied_def toggle_request_def installed_eq)
qed

text \<open>
  C2, as stated, fails: after the installation a toggle to true is delivered and both
  engine calls fail. The call has completed (the failure response is sent and nothing is
  pending), the stored flag is true and the rule set is disabled.
\<close>

theorem failed_toggle_diverges:
  "pending failed_toggle = []
   \<and> responses_on 1 (trace failed_toggle) = [ToggleFailure ''PermissionDenied'']
   \<and> proxyEnabled failed_toggle = Some True
   \<and> ruleset_on failed_toggle = False
   \<and> ruleset_on failed_toggle \<noteq> or_false (proxyEnabled failed_toggle)"
  by (simp add: failed_toggle_eq installed_eq)

text \<open>
  C2, amended. A toggle request is delivered when nothing is pending, and afterwards no
  other request, startup or storage write arrives: only the calls of this request complete,
  in any order and with any outcome. From the delivery on the stored flag holds the
  requested value. Once the handler has sent its success response, the rule set is in the
  requested state, which is the state the stored flag names. Nothing is said about the rule
  set after a failure response.
\<close>

theorem toggle_success_converges:
  assumes "pending w = []" and "responses_on ex (trace w) = []"
    and "action rq = ''toggleProxy''"
    and "list_all is_settle es"
    and "w' = run es (step (Message ex rq) w)"
  shows "proxyEnabled w' = Some (enabled rq)
       \<and> (ToggleSuccess (enabled rq) \<in> set (responses_on ex (trace w'))
            \<longrightarrow> ruleset_on w' = enabled rq \<and> ruleset_on w' = or_false (proxyEnabled w'))"
proof -
  have inv1: "flow_inv ex (enabled rq) (step (Message ex rq) w)"
    using assms(1,3) by (rule flow_inv_start)
  have none1: "responses_on ex (trace (step (Message ex rq) w)) = []"
    using assms(2,3) by (simp add: ops)
  from flow_inv_run [OF assms(4) inv1] assms(5)
  have flag: "proxyEnabled w' = Some (enabled rq)"
    by (simp add: flow_inv_def)
  from flow_success_run [OF assms(4) inv1] none1 assms(5)
  have "ToggleSuccess (enabled rq) \<in> set (responses_on ex (trace w')) \<longrightarrow> ruleset_on w' = enabled rq"
    by simp
  with flag show ?thesis by simp
qed

text \<open>
  C2 amended, at a concrete input: the toggle to true after the installation, all four
  calls succeeding.
\<close>

theorem toggle_success_converges_witness:
  "pending installed = [] \<and> responses_on 1 (trace installed) = []
   \<and> action (toggle_request True) = ''toggleProxy''
   \<and> list_all is_settle [Settle 0 Done, Settle 0 Done, Settle 0 Done, Settle 0 Done]
   \<and> ToggleSuccess (enabled (toggle_request True)) \<in> set (responses_on 1 (trace happy_toggle))
   \<and> proxyEnabled happy_toggle = Some (enabled (toggle_request True))
   \<and> ruleset_on happy_toggle = enabled (toggle_request True)
   \<and> ruleset_on happy_toggle = or_false (proxyEnabled happy_toggle)"
proof -
  have h1: "pending installed = []" and h2: "responses_on 1 (trace installed) = []"
    by (simp_all add: installed_eq)
  have h3: "action (toggle_request True) = ''toggleProxy''"
    by (simp add: toggle_request_def)
  have h4: "list_all is_settle [Settle 0 Done, Settle 0 Done, Settle 0 Done, Settle 0 Done]"
    by simp
  have h6: "ToggleSuccess (enabled (toggle_request True)) \<in> set (responses_on 1 (trace happy_toggle))"
    by (simp add: happy_toggle_eq installed_eq toggle_request_def)
  from toggle_success_converges [OF h1 h2 h3 h4 happy_toggle_def] h1 h2 h3 h4 h6
  show ?thesis by simp
qed

text \<open>
  C3, as stated, fails: a toggle to false is delivered while a toggle to true is in flight.
  It is not rejected: the stored flag goes from true to false, two transitions are in
  flight, and when all calls have completed the second request has been answered with
  success and the engine has been called for both requests.
\<close>

theorem second_toggle_accepted:
  "in_flight first_toggle = 1 \<and> proxyEnabled first_toggle = Some True
   \<and> in_flight second_toggle = 2 \<and> proxyEnabled second_toggle = Some False
   \<and> pending both_toggles_done = []
   \<and> responses_on 2 (trace both_toggles_done) = [ToggleSuccess False]
   \<and> engine_calls (trace both_toggles_done) = engine_calls (trace installed) @ [True, True, False, False]"
  by (simp add: first_toggle_eq second_toggle_eq both_toggles_done_facts in_flight_def installed_eq)

text \<open>
  C3, amended. The toggle handler has no guard: in every state, whatever is pending, a
  toggle request writes its value to the store, performs no other effect at once, and adds
  one transition to those in flight; the calls that were pending stay in the pool as they
  were, and the rule set is untouched until a pending call completes.
\<close>

theorem toggle_always_accepted:
  "proxyEnabled (step (Message ex (toggle_request b)) w) = Some b
   \<and> in_flight (step (Message ex (toggle_request b)) w) = in_flight w + 1
   \<and> take (length (pending w)) (pending (step (Message ex (toggle_request b)) w)) = pending w
   \<and> last (pending (step (Message ex (toggle_request b)) w)) = SetCallback ex b
   \<and> trace (step (Message ex (toggle_request b)) w) = trace w @ [StorageSyncSet b]
   \<and> ruleset_on (step (Message ex (toggle_request b)) w) = ruleset_on w"
  by (simp add: toggle_request_def in_flight_def ops)

text \<open>
  C3 amended, at a concrete input: the second toggle of the scenario above.
\<close>

theorem toggle_always_accepted_witness:
  "in_flight first_toggle = 1
   \<and> proxyEnabled second_toggle = Some False
   \<and> in_flight second_toggle = 2
   \<and> take 2 (pending second_toggle) = pending first_toggle
   \<and> last (pending second_toggle) = SetCallback 2 False"
proof -
  have before: "in_flight first_toggle = 1" "length (pending first_toggle) = 2"
    by (simp_all add: first_toggle_eq in_flight_def)
  from toggle_always_accepted [of 2 False first_toggle] before
  show ?thesis by (simp add: second_toggle_def)
qed



text \<open>
  C5, as stated, fails in its last part. The flag is stored as true and the engine has not
  been called in this process. A status request is answered with \<open>enabled: true\<close> while
  the storage read of the startup listener is still pending, and also when the process
  received no startup event at all; in both runs no engine call has been made.
\<close>

theorem status_reply_before_reconciliation:
  "responses_on 1 (trace early_status) = [StatusReply True]
   \<and> engine_calls (trace early_status) = []
   \<and> pending early_status = [StartupGet]
   \<and> ruleset_on early_status = False
   \<and> responses_on 1 (trace unprompted_status) = [StatusReply True]
   \<and> engine_calls (trace unprompted_status) = []
   \<and> ruleset_on unprompted_status = False"
  by (simp add: early_status_eq unprompted_status_eq restarted_def fresh_def)

text \<open>
  C5, amended. In every state of the process, the startup listener reads the stored flag
  and calls the rule update with it: enable when the flag is true, disable when it is false
  or absent; when the engine confirms the call, the rule set is in that state. Wherever a
  status read is pending, the status handler answers with the stored flag (false when
  absent) and neither waits for nor looks at the rule engine.
\<close>

theorem startup_reapplies_flag:
  assumes "i < length (pending w2)" and "pending w2 ! i = StatusGet ex"
  shows "step (Settle (length (pending w)) Done) (step Startup w)
           = updateProxyRules (proxyEnabled w = Some True) FromStartup w
       \<and> engine_calls (trace (step (Settle (length (pending w)) Done) (step Startup w)))
           = engine_calls (trace w) @ [proxyEnabled w = Some True]
       \<and> ruleset_on (run [Startup, Settle (length (pending w)) Done,
                           Settle (length (pending w)) Done] w)
           = (proxyEnabled w = Some True)
       \<and> trace (step (Settle i Done) w2)
           = trace w2 @ [SendResponse ex (StatusReply (proxyEnabled w2 = Some True))]
       \<and> ruleset_on (step (Settle i Done) w2) = ruleset_on w2"
proof -
  let ?n = "length (pending w)"
  have flag: "or_false (proxyEnabled v) = (proxyEnabled v = Some True)" for v :: world
    by (cases "proxyEnabled v") auto
  have started: "step (Settle ?n Done) (step Startup w)
          = updateProxyRules (or_false (proxyEnabled w)) FromStartup w"
    by (simp add: settle_def remove_nth_def ops)
  have calls: "engine_calls (trace (updateProxyRules en c w)) = engine_calls (trace w) @ [en]" for en c
    by (simp add: ops)
  have applied: "ruleset_on (step (Settle ?n Done) (updateProxyRules en FromStartup w)) = en" for en
    by (simp add: settle_def remove_nth_def ops)
  have "run [Startup, Settle ?n Done, Settle ?n Done] w
          = step (Settle ?n Done) (step (Settle ?n Done) (step Startup w))"
    by simp
  with started applied have engine: "ruleset_on (run [Startup, Settle ?n Done, Settle ?n Done] w)
          = or_false (proxyEnabled w)"
    by simp
  have reply: "step (Settle i Done) w2
          = sendResponse ex (StatusReply (or_false (proxyEnabled w2))) (w2\<lparr>pending := remove_nth i (pending w2)\<rparr>)"
    using assms by (simp add: settle_def)
  from started calls engine reply show ?thesis
    by (simp add: flag sendResponse_def)
qed

text \<open>
  C5 amended, at concrete inputs: startup of a process with the flag stored as true, startup
  of a process with nothing stored, and the status request that is pending beside the
  startup listener's storage read.
\<close>

theorem startup_reapplies_flag_witness:
  "1 < length (pending status_asked) \<and> pending status_asked ! 1 = StatusGet 1
   \<and> engine_calls (trace (step (Settle 0 Done) (step Startup restarted))) = [True]
   \<and> ruleset_on (run [Startup, Settle 0 Done, Settle 0 Done] restarted) = True
   \<and> engine_calls (trace (step (Settle 0 Done) (step Startup fresh))) = [False]
   \<and> ruleset_on (run [Startup, Settle 0 Done, Settle 0 Done] fresh) = False
   \<and> trace (step (Settle 1 Done) status_asked) = [SendResponse 1 (StatusReply True)]
   \<and> ruleset_on (step (Settle 1 Done) status_asked) = False"
proof -
  have h1: "1 < length (pending status_asked)" and h2: "pending status_asked ! 1 = StatusGet 1"
    by (simp_all add: status_asked_eq)
  have asked: "proxyEnabled status_asked = Some True" "trace status_asked = []"
    "ruleset_on status_asked = False"
    by (simp_all add: status_asked_eq restarted_def fresh_def)
  have start: "length (pending restarted) = 0" "proxyEnabled restarted = Some True"
    "trace restarted = []" "length (pending fresh) = 0" "proxyEnabled fresh = None"
    "trace fresh = []"
    by (simp_all add: restarted_def fresh_def)
  from startup_reapplies_flag [OF h1 h2, of restarted] startup_reapplies_flag [OF h1 h2, of fresh]
       h1 h2 asked start
  show ?thesis by (simp add: settle_def remove_nth_def ops)
qed

text \<open>
  C6. A server check issues one fetch of \<open>http://localhost:8080/pqc-info\<close> and nothing
  else. When the fetch completes with an HTTP response, the handler sends one response
  whose \<open>online\<close> is true exactly when the status is between 200 and 299; when the fetch
  fails, it sends one response with \<open>online: false\<close> and the error's message. In both cases
  the response is the only effect: no error leaves the handler.
\<close>

theorem server_check_classifies:
  assumes "action rq = ''checkServerStatus''"
    and "w1 = step (Message ex rq) w"
    and "i < length (pending w2)" and "pending w2 ! i = Fetch url ex"
  shows "pending w1 = pending w @ [Fetch ''http://localhost:8080/pqc-info'' ex]
       \<and> trace w1 = trace w
       \<and> trace (step (Settle i (HttpResponse st)) w2)
           = trace w2 @ [SendResponse ex (ServerReply (200 \<le> st \<and> st \<le> 299) st)]
       \<and> trace (step (Settle i (Failed e)) w2)
           = trace w2 @ [SendResponse ex (ServerError False (message e))]"
  using assms by (simp add: settle_def response_ok_def PROXY_SERVER_def ops)

text \<open>
  C6, at a concrete input: a server check after the installation, answered with status
  204, with status 503, and with a network failure.
\<close>

theorem server_check_classifies_witness:
  "action check_request = ''checkServerStatus''
   \<and> 0 < length (pending (step (Message 1 check_request) installed))
   \<and> pending (step (Message 1 check_request) installed) ! 0 = Fetch ''http://localhost:8080/pqc-info'' 1
   \<and> responses_on 1 (trace (step (Settle 0 (HttpResponse 204)) (step (Message 1 check_request) installed)))
        = [ServerReply True 204]
   \<and> responses_on 1 (trace (step (Settle 0 (HttpResponse 503)) (step (Message 1 check_request) installed)))
        = [ServerReply False 503]
   \<and> responses_on 1 (trace (step (Settle 0 (Failed (JsError ''Failed to fetch''))) (step (Message 1 check_request) installed)))
        = [ServerError False ''Failed to fetch'']"
proof -
  let ?w = "step (Message 1 check_request) installed"
  have h1: "action check_request = ''checkServerStatus''"
    by (simp add: check_request_def)
  have pool: "pending ?w = [Fetch ''http://localhost:8080/pqc-info'' 1]" and tr: "trace ?w = trace installed"
    by (simp_all add: check_request_def installed_eq PROXY_SERVER_def ops)
  have h3: "0 < length (pending ?w)" and h4: "pending ?w ! 0 = Fetch ''http://localhost:8080/pqc-info'' 1"
    unfolding pool by simp_all
  have none: "responses_on 1 (trace installed) = []"
    by (simp add: installed_eq)
  from server_check_classifies [OF h1 refl h3 h4, where st = 204 and e = "JsError ''Failed to fetch''"]
       server_check_classifies [OF h1 refl h3 h4, where st = 503 and e = "JsError ''Failed to fetch''"]
       h1 h3 h4 tr none
  show ?thesis by simp
qed

text \<open>
  C7, as stated, fails: a message whose action is \<open>ping\<close> changes nothing. The listener
  returns without keeping the exchange open, sends no response and leaves no call pending
  that could send one.
\<close>

theorem unknown_action_unanswered:
  "\<not> known_action (action ping_request)
   \<and> \<not> fst (onMessage ping_request 1 installed)
   \<and> step (Message 1 ping_request) installed = installed
   \<and> responses_on 1 (trace installed) = []
   \<and> pending installed = []"
  by (simp add: ping_request_def known_action_def onMessage_def installed_eq)

text \<open>
  C7, amended. A message is delivered on an exchange that is new, and afterwards any
  events occur except another message on the same exchange. For the actions
  \<open>getProxyStatus\<close>, \<open>toggleProxy\<close> and \<open>checkServerStatus\<close> the listener keeps the exchange
  open, and at every moment the responses sent on the exchange and the pending calls that
  still owe it one number exactly one together: never more than one response, and exactly
  one when no such call is pending. For every other action the listener does not keep the
  exchange open, and no response is sent or owed at any moment.
\<close>

theorem one_response_per_known_request:
  assumes "responses_on ex (trace w) = []" and "owed ex w = 0"
    and "list_all (other_exchange ex) es"
    and "w' = run es (step (Message ex rq) w)"
  shows "fst (onMessage rq ex w) = known_action (action rq)
       \<and> length (responses_on ex (trace w')) + owed ex w'
           = (if known_action (action rq) then 1 else 0)"
proof -
  let ?w1 = "step (Message ex rq) w"
  have ret: "fst (onMessage rq ex w) = known_action (action rq)"
    by (simp add: onMessage_def known_action_def)
  have start: "length (responses_on ex (trace ?w1)) + owed ex ?w1
                 = (if known_action (action rq) then 1 else 0)"
    using assms(1,2) by (auto simp: known_action_def owed_def ops)
  from run_responses [OF assms(3), of ?w1] assms(4) start
  have "length (responses_on ex (trace w')) + owed ex w' = (if known_action (action rq) then 1 else 0)"
    by simp
  with ret show ?thesis ..
qed

text \<open>
  C7 amended, at a concrete input: a status request after the installation.
\<close>

theorem one_response_per_known_request_witness:
  "responses_on 1 (trace installed) = [] \<and> owed 1 installed = 0
   \<and> list_all (other_exchange 1) [Settle 0 Done]
   \<and> fst (onMessage status_request 1 installed)
   \<and> known_action (action status_request)
   \<and> responses_on 1 (trace (run [Settle 0 Done] (step (Message 1 status_request) installed)))
        = [StatusReply False]
   \<and> owed 1 (run [Settle 0 Done] (step (Message 1 status_request) installed)) = 0"
proof -
  have h1: "responses_on 1 (trace installed) = []" and h2: "owed 1 installed = 0"
    by (simp_all add: installed_eq owed_def)
  have h3: "list_all (other_exchange 1) [Settle 0 Done]"
    by simp
  have known: "known_action (action status_request)"
    by (simp add: known_action_def status_request_def)
  have run_eq: "run [Settle 0 Done] (step (Message 1 status_request) installed)
                  = installed\<lparr>trace := trace installed @ [SendResponse 1 (StatusReply False)]\<rparr>"
    by (simp add: installed_eq evals)
  from one_response_per_known_request [OF h1 h2 h3 refl, of status_request] h1 h2 h3 known
  show ?thesis unfolding run_eq by (simp add: installed_eq owed_def)
qed

text \<open>
  C8. The code at the input where it departs from the claim: at startup with the flag
  stored as true the engine rejects the update. The error is logged and the badge reads
  \<open>ERR\<close>, but the rejected promise of \<open>updateProxyRules\<close> is handled by nobody. The
  same happens to the update that the storage listener starts during a toggle, while the
  toggle handler catches the rejection of its own update and reports it.
\<close>

theorem startup_engine_failure_unhandled:
  "unhandled (trace startup_failure) = [JsError ''PermissionDenied'']
   \<and> pending startup_failure = []
   \<and> badge_text startup_failure = ''ERR''
   \<and> unhandled (trace failed_toggle) = [JsError ''PermissionDenied'']
   \<and> responses_on 1 (trace failed_toggle) = [ToggleFailure ''PermissionDenied'']"
  by (simp add: startup_failure_eq failed_toggle_eq installed_eq restarted_def fresh_def unhandled_def)

text \<open>
  C9, as stated, fails: after the failed toggle to true the stored flag is true and the
  badge reads \<open>ERR\<close> on red. The same request again, with the engine succeeding, is a
  toggle to the stored value; it turns the badge to \<open>ON\<close> on green.
\<close>

theorem same_state_toggle_changes_badge:
  "proxyEnabled failed_toggle = Some True \<and> pending failed_toggle = []
   \<and> badge_text failed_toggle = ''ERR'' \<and> badge_color failed_toggle = Some ''#EF4444''
   \<and> pending retried_toggle = []
   \<and> responses_on 2 (trace retried_toggle) = [ToggleSuccess True]
   \<and> badge_text retried_toggle = ''ON'' \<and> badge_color retried_toggle = Some ''#10B981''"
  by (simp add: retried_toggle_eq failed_toggle_eq installed_eq)

text \<open>
  C9, amended. Nothing is pending, the stored flag equals the requested value, and the
  badge shows that value (\<open>ON\<close> on green for true, no text for false). A toggle request
  for the same value is delivered and its calls complete without a failure. Then the
  handler has answered with success, the rule engine was called exactly once (no change
  event is dispatched), and badge text, badge color and stored flag are what they were.
\<close>

theorem same_state_toggle_idempotent:
  assumes "action rq = ''toggleProxy''" and "proxyEnabled w = Some (enabled rq)"
    and "badge_shows (enabled rq) w"
    and "pending w = []" and "responses_on ex (trace w) = []"
    and "list_all is_settle es" and "list_all succeeds es"
    and "w' = run es (step (Message ex rq) w)"
    and "pending w' = []"
  shows "responses_on ex (trace w') = [ToggleSuccess (enabled rq)]
       \<and> engine_calls (trace w') = engine_calls (trace w) @ [enabled rq]
       \<and> badge_text w' = badge_text w \<and> badge_color w' = badge_color w
       \<and> proxyEnabled w' = proxyEnabled w"
proof -
  let ?w1 = "step (Message ex rq) w"
  note finished = quiet_toggle_completes [OF assms(4,5,1,6,7,8,9)]
  have inv1: "flow_inv ex (enabled rq) ?w1"
    using assms(4,1) by (rule flow_inv_start)
  have calls1: "engine_calls (trace ?w1) = engine_calls (trace w)"
    and owed1: "engine_owed ?w1 = 1"
    using assms(1,2,4) by (simp_all add: engine_owed_def ops)
  from calls1 have "\<exists>k. engine_calls (trace ?w1) = engine_calls (trace w) @ replicate k (enabled rq)"
    by simp
  from flow_calls_run [OF assms(6) inv1 this] assms(8)
  obtain k where k: "engine_calls (trace w') = engine_calls (trace w) @ replicate k (enabled rq)"
    by auto
  from run_engine_calls [OF assms(6), of ?w1] calls1 owed1 assms(8,9)
  have "length (engine_calls (trace w')) = length (engine_calls (trace w)) + 1"
    by (simp add: engine_owed_def)
  with k have "k = 1" by simp
  with k have calls: "engine_calls (trace w') = engine_calls (trace w) @ [enabled rq]"
    by simp
  from finished assms(2,3) calls show ?thesis
    by (auto simp: badge_shows_def split: if_splits)
qed

text \<open>
  C9 amended, at a concrete input: a second toggle to true after a successful first one.
\<close>

theorem same_state_toggle_idempotent_witness:
  "action (toggle_request True) = ''toggleProxy''
   \<and> proxyEnabled happy_toggle = Some (enabled (toggle_request True))
   \<and> badge_shows (enabled (toggle_request True)) happy_toggle
   \<and> pending happy_toggle = [] \<and> responses_on 2 (trace happy_toggle) = []
   \<and> list_all is_settle [Settle 0 Done, Settle 0 Done]
   \<and> list_all succeeds [Settle 0 Done, Settle 0 Done]
   \<and> pending repeated_toggle = []
   \<and> responses_on 2 (trace repeated_toggle) = [ToggleSuccess True]
   \<and> engine_calls (trace repeated_toggle) = engine_calls (trace happy_toggle) @ [True]
   \<and> badge_text repeated_toggle = ''ON'' \<and> badge_color repeated_toggle = Some ''#10B981''
   \<and> proxyEnabled repeated_toggle = Some True"
proof -
  have h1: "action (toggle_request True) = ''toggleProxy''"
    and en: "enabled (toggle_request True) = True"
    by (simp_all add: toggle_request_def)
  have h2: "proxyEnabled happy_toggle = Some (enabled (toggle_request True))"
    and h3: "badge_shows (enabled (toggle_request True)) happy_toggle"
    and h4: "pending happy_toggle = []" and h5: "responses_on 2 (trace happy_toggle) = []"
    by (simp_all add: happy_toggle_eq installed_eq en badge_shows_def)
  have h6: "list_all is_settle [Settle 0 Done, Settle 0 Done]"
    and h7: "list_all succeeds [Settle 0 Done, Settle 0 Done]"
    by simp_all
  have h9: "pending repeated_toggle = []"
    by (simp add: repeated_toggle_eq happy_toggle_eq)
  have before: "badge_text happy_toggle = ''ON''" "badge_color happy_toggle = Some ''#10B981''"
    by (simp_all add: happy_toggle_eq)
  from same_state_toggle_idempotent [OF h1 h2 h3 h4 h5 h6 h7 repeated_toggle_def h9]
       h1 h2 h3 h4 h5 h6 h7 h9 before en
  show ?thesis by simp
qed

text \<open>
  C10. When another page changes the stored flag, the change event runs the rule update
  with the new value. A toggle request that changes the stored flag, delivered when nothing
  is pending, leaves two calls pending, the change event and the handler's storage
  callback; when all its calls have completed, in any order and with any outcome, the rule
  engine has been called twice with the requested value and the badge text has been written
  twice.
\<close>

theorem storage_change_reruns_update:
  assumes "action rq = ''toggleProxy''" and "proxyEnabled w \<noteq> Some (enabled rq)"
    and "pending w = []"
    and "list_all is_settle es"
    and "w' = run es (step (Message ex rq) w)"
    and "pending w' = []"
    and "proxyEnabled w0 \<noteq> Some v"
  shows "step (Settle (length (pending w0)) Done) (step (OtherWrite v) w0)
           = updateProxyRules v FromListener (w0\<lparr>proxyEnabled := Some v\<rparr>)
       \<and> pending (step (Message ex rq) w)
           = [ChangedEvent ''sync'' [(''proxyEnabled'', Change (proxyEnabled w) (Some (enabled rq)))],
              SetCallback ex (enabled rq)]
       \<and> engine_calls (trace w') = engine_calls (trace w) @ [enabled rq, enabled rq]
       \<and> length (badge_texts (trace w')) = length (badge_texts (trace w)) + 2"
proof -
  let ?w1 = "step (Message ex rq) w"
  have listener: "step (Settle (length (pending w0)) Done) (step (OtherWrite v) w0)
           = updateProxyRules v FromListener (w0\<lparr>proxyEnabled := Some v\<rparr>)"
    using assms(7) by (simp add: settle_def remove_nth_def changes_proxyEnabled_def ops)
  have pool: "pending ?w1
           = [ChangedEvent ''sync'' [(''proxyEnabled'', Change (proxyEnabled w) (Some (enabled rq)))],
              SetCallback ex (enabled rq)]"
    using assms(1,2,3) by (simp add: ops)
  have inv1: "flow_inv ex (enabled rq) ?w1"
    using assms(3,1) by (rule flow_inv_start)
  have calls1: "engine_calls (trace ?w1) = engine_calls (trace w)"
    and badge1: "badge_texts (trace ?w1) = badge_texts (trace w)"
    using assms(1) by (simp_all add: ops)
  have owed1: "engine_owed ?w1 = 2" and bowed1: "badge_owed ?w1 = 2"
    unfolding engine_owed_def badge_owed_def pool by (simp_all add: changes_proxyEnabled_def)
  from calls1 have "\<exists>k. engine_calls (trace ?w1) = engine_calls (trace w) @ replicate k (enabled rq)"
    by simp
  from flow_calls_run [OF assms(4) inv1 this] assms(5)
  obtain k where k: "engine_calls (trace w') = engine_calls (trace w) @ replicate k (enabled rq)"
    by auto
  from run_engine_calls [OF assms(4), of ?w1] calls1 owed1 assms(5,6)
  have "length (engine_calls (trace w')) = length (engine_calls (trace w)) + 2"
    by (simp add: engine_owed_def)
  with k have "k = 2" by simp
  with k have calls: "engine_calls (trace w') = engine_calls (trace w) @ [enabled rq, enabled rq]"
    by (simp add: numeral_2_eq_2)
  from run_badge_texts [OF assms(4), of ?w1] badge1 bowed1 assms(5,6)
  have "length (badge_texts (trace w')) = length (badge_texts (trace w)) + 2"
    by (simp add: badge_owed_def)
  with listener pool calls show ?thesis by simp
qed

text \<open>
  C10, at a concrete input: after the installation, a write of true by another page, and
  the toggle to true.
\<close>

theorem storage_change_reruns_update_witness:
  "action (toggle_request True) = ''toggleProxy''
   \<and> proxyEnabled installed \<noteq> Some (enabled (toggle_request True))
   \<and> pending installed = []
   \<and> list_all is_settle [Settle 0 Done, Settle 0 Done, Settle 0 Done, Settle 0 Done]
   \<and> pending happy_toggle = []
   \<and> engine_calls (trace (step (Settle 0 Done) (step (OtherWrite True) installed))) = [False, True]
   \<and> engine_calls (trace happy_toggle) = [False, True, True]
   \<and> length (badge_texts (trace happy_toggle)) = 4"
proof -
  have h1: "action (toggle_request True) = ''toggleProxy''"
    and en: "enabled (toggle_request True) = True"
    by (simp_all add: toggle_request_def)
  have h2: "proxyEnabled installed \<noteq> Some (enabled (toggle_request True))"
    and h3: "pending installed = []"
    by (simp_all add: installed_eq en)
  have h4: "list_all is_settle [Settle 0 Done, Settle 0 Done, Settle 0 Done, Settle 0 Done]"
    by simp
  have h6: "pending happy_toggle = []"
    by (simp add: happy_toggle_eq)
  have h7: "proxyEnabled installed \<noteq> Some True"
    by (simp add: installed_eq)
  have before: "engine_calls (trace installed) = [False]" "length (badge_texts (trace installed)) = 2"
    by (simp_all add: installed_eq)
  have other: "engine_calls (trace (updateProxyRules True FromListener (installed\<lparr>proxyEnabled := Some True\<rparr>)))
                 = [False, True]"
    by (simp add: installed_eq ops)
  from storage_change_reruns_update [OF h1 h2 h3 h4 happy_toggle_def h6 h7]
       h1 h2 h3 h4 h6 before en other
  show ?thesis by simp
qed

end
